theory Spec2Isabelle
  imports Main "HOL-Library.Sublist"
begin

section \<open>JavaScript string primitives used by the compiler\<close>

text \<open>
  The compiler object \<open>vno\<close> works on JavaScript strings with \<open>split\<close>, \<open>join\<close>,
  \<open>indexOf\<close>, \<open>lastIndexOf\<close> and \<open>slice\<close>. A string is modelled as a \<open>char list\<close>;
  a character stands for a code unit below 256. A value that may be \<open>undefined\<close> is an
  \<open>option\<close>, and a thrown exception is the left summand of a sum type:
  \<open>TypeError\<close> is what calling a method on \<open>undefined\<close> throws, \<open>ReadError\<close> is a
  rejected \<open>Deno.readTextFile\<close>.
\<close>

datatype error = TypeError | ReadError

text \<open>The character classes \<open>\w\<close> and \<open>\s\<close> of JavaScript regular expressions.\<close>

definition is_word :: "char \<Rightarrow> bool" where
  "is_word c =
     (let n = (of_char c :: nat)
      in (48 \<le> n \<and> n \<le> 57) \<or> (65 \<le> n \<and> n \<le> 90) \<or> n = 95 \<or> (97 \<le> n \<and> n \<le> 122))"

definition is_space :: "char \<Rightarrow> bool" where
  "is_space c = (of_char c \<in> {9, 10, 11, 12, 13, 32, 160 :: nat})"

text \<open>
  A pattern is given by its anchored matcher: applied to the rest of the subject it
  returns the length of the match that starts at the first character, if there is one.
\<close>

type_synonym matcher = "string \<Rightarrow> nat option"

text \<open>
  \<open>/<\W*NAME>/\<close>: a \<open><\<close>, any run of non-word characters, then \<open>NAME>\<close>. The names
  used begin with a word character, so the longest run is the only one that the name
  can follow.
\<close>

definition tag_re :: "string \<Rightarrow> matcher" where
  "tag_re name s =
     (case s of
        [] \<Rightarrow> None
      | c # r \<Rightarrow>
          if c = CHR ''<'' \<and> prefix (name @ ''>'') (dropWhile (\<lambda>x. \<not> is_word x) r)
          then Some (1 + length (takeWhile (\<lambda>x. \<not> is_word x) r) + length name + 1)
          else None)"

text \<open>
  \<open>/\n|\s{2,}/\<close>: the alternatives are tried in order, so a newline is matched alone;
  any other white space character starts a match only when a second one follows, and
  the match then takes the whole run.
\<close>

definition nl_or_spaces_re :: matcher where
  "nl_or_spaces_re s =
     (case s of
        [] \<Rightarrow> None
      | c # r \<Rightarrow>
          if c = CHR ''\<newline>'' then Some 1
          else if is_space c \<and> (case r of [] \<Rightarrow> False | d # _ \<Rightarrow> is_space d)
          then Some (length (takeWhile is_space s))
          else None)"

text \<open>\<open>/[\n\s]/\<close>, \<open>/\n/\<close> and \<open>/[`'"]/\<close> match one character of a class.\<close>

definition class_re :: "(char \<Rightarrow> bool) \<Rightarrow> matcher" where
  "class_re P s = (case s of [] \<Rightarrow> None | c # _ \<Rightarrow> if P c then Some 1 else None)"

definition space_re :: matcher where
  "space_re = class_re (\<lambda>c. c = CHR ''\<newline>'' \<or> is_space c)"

definition nl_re :: matcher where
  "nl_re = class_re (\<lambda>c. c = CHR ''\<newline>'')"

definition quote_re :: matcher where
  "quote_re = class_re (\<lambda>c. c = CHR 0x60 \<or> c = CHR 0x27 \<or> c = CHR 0x22)"

text \<open>A string separator, as in \<open>item.split(" ")\<close>, matches itself.\<close>

definition str_re :: "string \<Rightarrow> matcher" where
  "str_re sep s = (if prefix sep s then Some (length sep) else None)"

text \<open>
  \<open>String.prototype.split\<close>: \<open>seg\<close> is the text since the end of the last separator.
  At each position the matcher is tried; a match that ends where the current segment
  began (an empty match at its start) is skipped, any other closes the segment and
  the scan goes on behind the match. The text left at the end is the last segment.
\<close>

function split_from :: "matcher \<Rightarrow> string \<Rightarrow> string \<Rightarrow> string list" where
  "split_from m seg [] = [seg]"
| "split_from m seg (c # cs) =
     (case m (c # cs) of
        None \<Rightarrow> split_from m (seg @ [c]) cs
      | Some n \<Rightarrow>
          if n = 0 \<and> seg = [] then split_from m (seg @ [c]) cs
          else seg # split_from m [] (drop n (c # cs)))"
  by pat_completeness auto
termination
  by (relation "measure (\<lambda>(m, seg, s). 2 * length s + (if seg = [] then 0 else 1))") auto

definition split_re :: "matcher \<Rightarrow> string \<Rightarrow> string list" where
  "split_re m s =
     (if s = [] then (case m [] of None \<Rightarrow> [[]] | Some _ \<Rightarrow> [])
      else split_from m [] s)"

text \<open>\<open>xs[i]\<close> on an array: \<open>undefined\<close> out of range.\<close>

definition nth_opt :: "'a list \<Rightarrow> nat \<Rightarrow> 'a option" where
  "nth_opt xs i = (if i < length xs then Some (xs ! i) else None)"

text \<open>\<open>indexOf\<close> and \<open>lastIndexOf\<close> for a one-character search string: \<open>-1\<close> when absent.\<close>

definition indexOf :: "string \<Rightarrow> char \<Rightarrow> int" where
  "indexOf s c =
     (if c \<in> set s then int (length (takeWhile (\<lambda>x. x \<noteq> c) s)) else - 1)"

definition lastIndexOf :: "string \<Rightarrow> char \<Rightarrow> int" where
  "lastIndexOf s c =
     (if c \<in> set s then int (length s) - 1 - int (length (takeWhile (\<lambda>x. x \<noteq> c) (rev s)))
      else - 1)"

text \<open>
  \<open>slice(start, stop)\<close>: a negative index counts from the end, both are clamped
  to the string, and an inverted range is empty.
\<close>

definition slice :: "string \<Rightarrow> int \<Rightarrow> int \<Rightarrow> string" where
  "slice s start stop =
     (let len = int (length s);
          lo = (if start < 0 then max (len + start) 0 else min start len);
          hi = (if stop < 0 then max (len + stop) 0 else min stop len)
      in take (nat (hi - lo)) (drop (nat lo) s))"

text \<open>A template literal prints \<open>undefined\<close> for an undefined value.\<close>

definition interpolate :: "string option \<Rightarrow> string" where
  "interpolate v = (case v of None \<Rightarrow> ''undefined'' | Some s \<Rightarrow> s)"

section \<open>Path joining\<close>

text \<open>
  Modelled from the spec: \<open>join\<close> (the path module of the Deno standard library) and
  \<open>Deno.cwd\<close> are imported by the compiler and are not part of its sources. The
  specification says that a relative import path is resolved by joining it to the
  process's current working directory, \<open>./Child.vue\<close> giving \<open><cwd>/Child.vue\<close>.
  The working directory is a parameter \<open>cwd\<close> of the model; \<open>path_join\<close> is the POSIX
  join of two paths: the non-empty ones are put together with a \<open>/\<close> and the result is
  normalised (empty and \<open>.\<close> segments dropped, \<open>..\<close> removing the segment before it).
\<close>

fun normalize_segments :: "bool \<Rightarrow> string list \<Rightarrow> string list \<Rightarrow> string list" where
  "normalize_segments allowAboveRoot res [] = res"
| "normalize_segments allowAboveRoot res (seg # segs) =
     (if seg = [] \<or> seg = ''.'' then normalize_segments allowAboveRoot res segs
      else if seg = ''..'' then
        (if res \<noteq> [] \<and> last res \<noteq> ''..'' then normalize_segments allowAboveRoot (butlast res) segs
         else if allowAboveRoot then normalize_segments allowAboveRoot (res @ [''..'']) segs
         else normalize_segments allowAboveRoot res segs)
      else normalize_segments allowAboveRoot (res @ [seg]) segs)"

fun join_segments :: "string list \<Rightarrow> string" where
  "join_segments [] = []"
| "join_segments [seg] = seg"
| "join_segments (seg # segs) = seg @ ''/'' @ join_segments segs"

definition path_normalize :: "string \<Rightarrow> string" where
  "path_normalize p =
     (if p = [] then ''.''
      else
        let isAbsolute = (hd p = CHR ''/'');
            trailingSeparator = (last p = CHR ''/'');
            r = join_segments (normalize_segments (\<not> isAbsolute) [] (split_re (str_re ''/'') p));
            r1 = (if r = [] \<and> \<not> isAbsolute then ''.'' else r);
            r2 = (if r1 \<noteq> [] \<and> trailingSeparator then r1 @ ''/'' else r1)
        in if isAbsolute then ''/'' @ r2 else r2)"

definition path_join :: "string \<Rightarrow> string \<Rightarrow> string" where
  "path_join a b =
     (if a = [] \<and> b = [] then ''.''
      else if a = [] then path_normalize b
      else if b = [] then path_normalize a
      else path_normalize (a @ ''/'' @ b))"

section \<open>The compiler object\<close>

text \<open>
  The interface \<open>component\<close>: \<open>label\<close> and \<open>path\<close> are always there, the other fields
  are optional and filled in while the component is parsed (the field \<open>instance\<close> of the
  source is \<open>instance_frag\<close> here).
\<close>

record component =
  label :: string
  path :: string
  template :: "string option"
  script :: "string option"
  style :: "string option"
  instance_frag :: "string option"

text \<open>
  The state of the object \<open>vno\<close>: the \<open>queue\<close> of components not yet parsed and the
  \<open>cache\<close> of parsed ones. \<open>written\<close> is the sequence of data arguments of the calls
  \<open>Deno.writeTextFile("./vno-build/test.js", instance, {append: true})\<close>, in the order
  in which \<open>build\<close> issues them.
\<close>

record vno =
  queue :: "component list"
  cache :: "component list"
  written :: "string option list"

text \<open>
  The state when the module is loaded: queue and cache are empty, and the call of
  \<open>build\<close> at the end of the module finds nothing to write.
\<close>

definition vno_init :: vno where
  "vno_init = \<lparr>queue = [], cache = [], written = []\<rparr>"

text \<open>\<open>locate\<close>: the argument goes through a template literal before it is joined.\<close>

definition vno_locate :: "string \<Rightarrow> string option \<Rightarrow> string" where
  "vno_locate cwd relative = path_join cwd (interpolate relative)"

text \<open>
  \<open>template\<close>, \<open>script\<close> and \<open>style\<close> take element 1 of the split at the tag pattern and
  remove white space from it by a second split and \<open>join("")\<close>. Element 1 is
  \<open>undefined\<close> when the pattern occurs nowhere, and calling \<open>split\<close> on it throws.
\<close>

definition vno_template :: "string \<Rightarrow> component \<Rightarrow> error + component" where
  "vno_template data current =
     (case nth_opt (split_re (tag_re ''template'') data) 1 of
        None \<Rightarrow> Inl TypeError
      | Some part \<Rightarrow>
          Inr (current\<lparr>template := Some (concat (split_re nl_or_spaces_re part))\<rparr>))"

definition vno_script :: "string \<Rightarrow> component \<Rightarrow> error + component" where
  "vno_script data current =
     (case nth_opt (split_re (tag_re ''script'') data) 1 of
        None \<Rightarrow> Inl TypeError
      | Some part \<Rightarrow>
          let script = concat (split_re space_re part);
              start = indexOf script CHR ''{'' + 1;
              stop = lastIndexOf script CHR ''}''
          in Inr (current\<lparr>script := Some (slice script start stop)\<rparr>))"

definition vno_style :: "string \<Rightarrow> component \<Rightarrow> error + component" where
  "vno_style data current =
     (case nth_opt (split_re (tag_re ''style'') data) 1 of
        None \<Rightarrow> Inl TypeError
      | Some part \<Rightarrow> Inr (current\<lparr>style := Some (concat (split_re space_re part))\<rparr>))"

text \<open>
  \<open>imports\<close>: the lines that begin with \<open>import\<close> are split at single spaces; the
  destructuring \<open>[_, label, __, path]\<close> takes the elements 1 and 3. With fewer than four
  elements \<open>path\<close> is \<open>undefined\<close> and \<open>path.split\<close> throws. The new component is
  pushed when no component of the cache or the queue has its label.
\<close>

fun imports_forEach :: "string \<Rightarrow> string list \<Rightarrow> vno \<Rightarrow> error + vno" where
  "imports_forEach cwd [] st = Inr st"
| "imports_forEach cwd (item # items) st =
     (case split_re (str_re '' '') item of
        _ # lbl # _ # pth # _ \<Rightarrow>
          let component =
                \<lparr>label = lbl, path = vno_locate cwd (nth_opt (split_re quote_re pth) 1),
                 template = None, script = None, style = None, instance_frag = None\<rparr>
          in imports_forEach cwd items
               (if \<not> list_ex (\<lambda>child. label child = label component) (cache st) \<and>
                   \<not> list_ex (\<lambda>child. label child = label component) (queue st)
                then st\<lparr>queue := queue st @ [component]\<rparr>
                else st)
      | _ \<Rightarrow> Inl TypeError)"

definition vno_imports :: "string \<Rightarrow> string \<Rightarrow> vno \<Rightarrow> error + vno" where
  "vno_imports cwd data st =
     (let lines = split_re nl_re data;
          children = filter (\<lambda>element. prefix ''import'' element) lines
      in imports_forEach cwd children st)"

text \<open>\<open>instance\<close>: the root form for the label \<open>App\<close>, the registration form otherwise.\<close>

definition vno_instance :: "component \<Rightarrow> component" where
  "vno_instance current =
     (if label current = ''App''
      then current\<lparr>instance_frag := Some
             (''\<newline>const '' @ label current @ '' = new Vue({template: '' @ [CHR 0x60] @
              interpolate (template current) @ [CHR 0x60] @ '','' @
              interpolate (script current) @ ''})'')\<rparr>
      else current\<lparr>instance_frag := Some
             (''\<newline>const '' @ label current @ '' = Vue.component('' @ [CHR 0x22] @
              label current @ [CHR 0x22] @ '', {template: '' @ [CHR 0x60] @
              interpolate (template current) @ [CHR 0x60] @ '','' @
              interpolate (script current) @ ''})'')\<rparr>)"

text \<open>
  \<open>build\<close>: \<open>Array.prototype.reverse\<close> reverses the cache in place and returns it;
  one write is issued for each of its components.
\<close>

definition vno_build :: "vno \<Rightarrow> vno" where
  "vno_build st =
     (let reverse = rev (cache st)
      in st\<lparr>cache := reverse, written := written st @ map instance_frag reverse\<rparr>)"

text \<open>
  \<open>Deno.writeTextFile\<close> is asynchronous and \<open>build\<close> does not await its calls
  (nor that of \<open>ensureDir\<close>; the directory is taken to exist), whereas the loop of
  \<open>parse\<close> awaits its read. The appends that \<open>build\<close> issues are therefore pending
  together, and each one lands in the file when it completes. A state of the output
  is the pair of the data still pending and the fragments already appended to
  \<open>./vno-build/test.js\<close>; any pending append may be the next to complete.
\<close>

inductive append_completes ::
  "string option list \<times> string option list \<Rightarrow> string option list \<times> string option list \<Rightarrow> bool" where
  complete: "append_completes (xs @ w # ys, file) (xs @ ys, file @ [w])"

text \<open>
  The body of the loop of \<open>parse\<close>, for the component \<open>current\<close> shifted off the queue;
  \<open>files\<close> is \<open>Deno.readTextFile\<close>, \<open>None\<close> for a file that cannot be read. The
  methods change \<open>current\<close> in place one after the other; \<open>imports\<close> runs before
  \<open>current\<close> is pushed into the cache.
\<close>

definition parse_body ::
  "(string \<Rightarrow> string option) \<Rightarrow> string \<Rightarrow> component \<Rightarrow> vno \<Rightarrow> error + vno" where
  "parse_body files cwd current st =
     (case files (path current) of
        None \<Rightarrow> Inl ReadError
      | Some data \<Rightarrow>
          (case vno_template data current of
             Inl e \<Rightarrow> Inl e
           | Inr c1 \<Rightarrow>
               (case vno_script data c1 of
                  Inl e \<Rightarrow> Inl e
                | Inr c2 \<Rightarrow>
                    (case vno_style data c2 of
                       Inl e \<Rightarrow> Inl e
                     | Inr c3 \<Rightarrow>
                         (let c4 = vno_instance c3
                          in case vno_imports cwd data st of
                               Inl e \<Rightarrow> Inl e
                             | Inr st' \<Rightarrow> Inr (st'\<lparr>cache := cache st' @ [c4]\<rparr>))))))"

text \<open>
  The loop \<open>while (this.queue.length)\<close>. It is a partial function: \<open>None\<close> stands for a
  loop that never ends, \<open>Some (Inl e)\<close> for a thrown exception, \<open>Some (Inr st)\<close> for
  the state in which the loop is left.
\<close>

partial_function (option) parse_loop ::
  "(string \<Rightarrow> string option) \<Rightarrow> string \<Rightarrow> vno \<Rightarrow> (error + vno) option" where
  "parse_loop files cwd st =
     (case queue st of
        [] \<Rightarrow> Some (Inr st)
      | current # rest \<Rightarrow>
          (case parse_body files cwd current (st\<lparr>queue := rest\<rparr>) of
             Inl e \<Rightarrow> Some (Inl e)
           | Inr st' \<Rightarrow> parse_loop files cwd st'))"

text \<open>\<open>parse\<close> pushes the root, runs the loop, builds and returns the cache.\<close>

definition vno_parse ::
  "(string \<Rightarrow> string option) \<Rightarrow> string \<Rightarrow> component \<Rightarrow> vno \<Rightarrow>
     (error + component list \<times> vno) option" where
  "vno_parse files cwd root st =
     (case parse_loop files cwd (st\<lparr>queue := queue st @ [root]\<rparr>) of
        None \<Rightarrow> None
      | Some (Inl e) \<Rightarrow> Some (Inl e)
      | Some (Inr st1) \<Rightarrow> (let st2 = vno_build st1 in Some (Inr (cache st2, st2))))"

declare parse_loop.simps [code]

section \<open>Notions used to state the properties\<close>

text \<open>
  The two forms of an instance fragment, for a label \<open>l\<close>, a template \<open>t\<close> and a
  script \<open>s\<close>: the construction of the root instance, and the registration of a named
  component with the label as registry key and as binding name.
\<close>

definition root_form :: "string \<Rightarrow> string \<Rightarrow> string \<Rightarrow> string" where
  "root_form l t s =
     ''\<newline>const '' @ l @ '' = new Vue({template: '' @ [CHR 0x60] @ t @ [CHR 0x60] @
     '','' @ s @ ''})''"

definition registration_form :: "string \<Rightarrow> string \<Rightarrow> string \<Rightarrow> string" where
  "registration_form l t s =
     ''\<newline>const '' @ l @ '' = Vue.component('' @ [CHR 0x22] @ l @ [CHR 0x22] @
     '', {template: '' @ [CHR 0x60] @ t @ [CHR 0x60] @ '','' @ s @ ''})''"

text \<open>Components used as concrete inputs.\<close>

definition app_component :: component where
  "app_component =
     \<lparr>label = ''App'', path = ''/project/App.vue'', template = None, script = None,
      style = None, instance_frag = None\<rparr>"

definition child_component :: component where
  "child_component =
     \<lparr>label = ''Child'', path = ''/project/Child.vue'', template = None, script = None,
      style = None, instance_frag = None\<rparr>"

text \<open>
  \<open>occurs m s\<close>: the pattern matches at some position of \<open>s\<close>.
  \<open>no_match_within m pre rest\<close>: in the subject \<open>pre @ rest\<close> no match begins at a
  position of \<open>pre\<close>.
\<close>

fun occurs :: "matcher \<Rightarrow> string \<Rightarrow> bool" where
  "occurs m [] = False"
| "occurs m (c # cs) = (m (c # cs) \<noteq> None \<or> occurs m cs)"

fun no_match_within :: "matcher \<Rightarrow> string \<Rightarrow> string \<Rightarrow> bool" where
  "no_match_within m [] rest = True"
| "no_match_within m (c # cs) rest = (m (c # cs @ rest) = None \<and> no_match_within m cs rest)"



text \<open>Import lines used as concrete inputs.\<close>

definition import_child_line :: string where
  "import_child_line = ''import Child from '' @ [CHR 0x27] @ ''./Child.vue'' @ [CHR 0x27]"


text \<open>
  The labels that the compiler knows: those of the components in the cache or in the
  queue. They are what the test of \<open>imports\<close> compares a new label with.
\<close>

definition known :: "vno \<Rightarrow> string set" where
  "known st = label ` (set (cache st) \<union> set (queue st))"

text \<open>
  The import graph of a set of component files. \<open>imported cwd data\<close> lists the
  components that \<open>imports\<close> pushes for the source \<open>data\<close> when nothing is known yet:
  one for each label that an import line names. The components of the set are the
  root and every component that some file imports; the graph has an edge from the
  label of a component to each label that the file at its path imports.
\<close>

definition imported :: "string \<Rightarrow> string \<Rightarrow> component list" where
  "imported cwd data = (case vno_imports cwd data vno_init of Inl e \<Rightarrow> [] | Inr s \<Rightarrow> queue s)"



text \<open>
  Two notions for the proofs about \<open>imports\<close>: the component that the body of the
  \<open>forEach\<close> builds from one line (\<open>None\<close> when it throws), and the components of a
  list whose label is neither in \<open>K\<close> nor carried by an earlier one of the list.
\<close>

definition item_component :: "string \<Rightarrow> string \<Rightarrow> component option" where
  "item_component cwd item =
     (case split_re (str_re '' '') item of
        _ # lbl # _ # pth # _ \<Rightarrow>
          Some \<lparr>label = lbl, path = vno_locate cwd (nth_opt (split_re quote_re pth) 1),
                template = None, script = None, style = None, instance_frag = None\<rparr>
      | _ \<Rightarrow> None)"

fun first_new :: "string set \<Rightarrow> component list \<Rightarrow> component list" where
  "first_new K [] = []"
| "first_new K (d # ds) =
     (if label d \<in> K then first_new K ds else d # first_new (insert (label d) K) ds)"



text \<open>
  A set of two component files, \<open>App.vue\<close> importing \<open>Child.vue\<close>, with the components
  that parsing them gives; and a file \<open>App.vue\<close> that imports itself.
\<close>

definition app_source :: string where
  "app_source =
     ''<template><div><Child/></div></template>\<newline><script>\<newline>'' @ import_child_line @
     ''\<newline>export default {name: 1}\<newline></script>\<newline><style></style>''"

definition child_source :: string where
  "child_source =
     ''<template><p>Hi</p></template>\<newline><script>\<newline>export default {}\<newline></script>\<newline><style></style>''"

definition example_files :: "string \<Rightarrow> string option" where
  "example_files p =
     (if p = ''/project/App.vue'' then Some app_source
      else if p = ''/project/Child.vue'' then Some child_source
      else None)"

definition app_parsed :: component where
  "app_parsed =
     vno_instance (app_component\<lparr>template := Some ''<div><Child/></div>'',
       script := Some ''name:1'', style := Some []\<rparr>)"

definition child_parsed :: component where
  "child_parsed =
     vno_instance (child_component\<lparr>template := Some ''<p>Hi</p>'',
       script := Some [], style := Some []\<rparr>)"

definition self_source :: string where
  "self_source =
     ''<template><div/></template>\<newline><script>\<newline>import App from '' @ [CHR 0x27] @ ''./App.vue'' @
     [CHR 0x27] @ ''\<newline>export default {}\<newline></script>\<newline><style></style>''"

definition self_files :: "string \<Rightarrow> string option" where
  "self_files p = (if p = ''/project/App.vue'' then Some self_source else None)"

definition self_parsed :: component where
  "self_parsed =
     vno_instance (app_component\<lparr>template := Some ''<div/>'', script := Some [], style := Some []\<rparr>)"

section \<open>Evaluation of the string primitives\<close>

lemmas re_defs =
  split_re_def tag_re_def nth_opt_def nl_or_spaces_re_def space_re_def nl_re_def quote_re_def
  class_re_def str_re_def is_word_def is_space_def indexOf_def lastIndexOf_def slice_def

lemmas path_defs = path_join_def path_normalize_def

section \<open>Properties of the split\<close>

lemma split_from_no_match: "\<not> occurs m s \<Longrightarrow> split_from m seg s = [seg @ s]"
  by (induction s arbitrary: seg) auto

lemma tag_re_Nil [simp]: "tag_re name [] = None"
  by (simp add: tag_re_def)

lemma split_re_no_match: "\<not> occurs m s \<Longrightarrow> m [] = None \<Longrightarrow> split_re m s = [s]"
  by (simp add: split_re_def split_from_no_match)

lemma nth_opt_split_no_match:
  "\<not> occurs (tag_re name) data \<Longrightarrow> nth_opt (split_re (tag_re name) data) (Suc 0) = None"
  by (simp add: split_re_no_match nth_opt_def)

lemma split_from_first:
  "no_match_within m pre rest \<Longrightarrow> m rest = Some n \<Longrightarrow> 0 < n \<Longrightarrow> rest \<noteq> [] \<Longrightarrow>
   split_from m seg (pre @ rest) = (seg @ pre) # split_from m [] (drop n rest)"
proof (induction pre arbitrary: seg)
  case Nil
  then obtain c cs where "rest = c # cs" by (cases rest) auto
  with Nil show ?case by simp
next
  case (Cons a pre)
  then show ?case by simp
qed

lemma concat_split_from_class:
  "concat (split_from (class_re P) seg s) = seg @ filter (\<lambda>c. \<not> P c) s"
  by (induction s arbitrary: seg) (auto simp: class_re_def)

lemma concat_split_space: "concat (split_re space_re s) = filter (\<lambda>c. \<not> is_space c) s"
proof -
  have "(\<lambda>c. c = CHR ''\<newline>'' \<or> is_space c) = is_space"
    by (auto simp: is_space_def)
  then show ?thesis
    by (simp add: split_re_def space_re_def concat_split_from_class class_re_def)
qed

lemma tag_re_open:
  assumes "name \<noteq> []" "is_word (hd name)"
  shows "tag_re name (''<'' @ name @ ''>'' @ rest) = Some (length name + 2)"
proof -
  obtain c cs where n: "name = c # cs" using assms by (cases name) auto
  with assms have "is_word c" by simp
  then show ?thesis by (simp add: tag_re_def n)
qed

lemma tag_re_close:
  assumes "name \<noteq> []" "is_word (hd name)"
  shows "tag_re name (''</'' @ name @ ''>'' @ rest) = Some (length name + 3)"
proof -
  obtain c cs where n: "name = c # cs" using assms by (cases name) auto
  with assms have "is_word c" by simp
  then show ?thesis by (simp add: tag_re_def n is_word_def)
qed

lemma split_open_close:
  assumes nm: "name \<noteq> []" "is_word (hd name)"
    and pre: "no_match_within (tag_re name) pre (''<'' @ name @ ''>'' @ body @ ''</'' @ name @ ''>'' @ post)"
    and body: "no_match_within (tag_re name) body (''</'' @ name @ ''>'' @ post)"
  shows "split_re (tag_re name) (pre @ ''<'' @ name @ ''>'' @ body @ ''</'' @ name @ ''>'' @ post)
         = pre # body # split_from (tag_re name) [] post"
proof -
  let ?close = "''</'' @ name @ ''>'' @ post"
  let ?open = "''<'' @ name @ ''>'' @ body @ ?close"
  have 1: "split_from (tag_re name) [] (pre @ ?open)
           = ([] @ pre) # split_from (tag_re name) [] (drop (length name + 2) ?open)"
    by (rule split_from_first [OF pre tag_re_open [OF nm]]) simp_all
  have 2: "drop (length name + 2) ?open = body @ ?close" by simp
  have 3: "split_from (tag_re name) [] (body @ ?close)
           = ([] @ body) # split_from (tag_re name) [] (drop (length name + 3) ?close)"
    by (rule split_from_first [OF body tag_re_close [OF nm]]) simp_all
  have 4: "drop (length name + 3) ?close = post" by (simp add: numeral_3_eq_3)
  show ?thesis
    unfolding split_re_def using 1 2 3 4 by simp
qed

lemma nth_opt_Cons2 [simp]: "nth_opt (a # b # xs) (Suc 0) = Some b"
  by (simp add: nth_opt_def)

lemma slice_butlast: "slice s 0 (- 1) = butlast s"
proof (cases s)
  case Nil
  then show ?thesis by (simp add: slice_def)
next
  case (Cons a as)
  then have "nat (max (int (length s) + - 1) 0 - 0) = length s - 1" by simp
  then show ?thesis by (simp add: slice_def butlast_conv_take)
qed



lemma split_from_not_Nil: "split_from m seg s \<noteq> []"
  by (induction m seg s rule: split_from.induct) (auto split: option.splits)



lemma length_takeWhile_neq: "c \<in> set xs \<Longrightarrow> length (takeWhile (\<lambda>x. x \<noteq> c) xs) < length xs"
  by (induction xs) auto

lemma indexOf_append_ge:
  assumes "c \<notin> set a" "c \<in> set b"
  shows "int (length a) \<le> indexOf (a @ b) c"
proof -
  have "takeWhile (\<lambda>x. x \<noteq> c) (a @ b) = a @ takeWhile (\<lambda>x. x \<noteq> c) b"
    using assms(1) by (intro takeWhile_append2) auto
  then show ?thesis using assms(2) by (simp add: indexOf_def)
qed

lemma lastIndexOf_append_less:
  assumes "c \<in> set a" "c \<notin> set b"
  shows "0 \<le> lastIndexOf (a @ b) c \<and> lastIndexOf (a @ b) c < int (length a)"
proof -
  have 1: "takeWhile (\<lambda>x. x \<noteq> c) (rev b @ rev a) = rev b @ takeWhile (\<lambda>x. x \<noteq> c) (rev a)"
    using assms(2) by (intro takeWhile_append2) auto
  have 2: "length (takeWhile (\<lambda>x. x \<noteq> c) (rev a)) < length a"
    using assms(1) length_takeWhile_neq [of c "rev a"] by simp
  show ?thesis using assms 1 2 by (simp add: lastIndexOf_def)
qed

lemma slice_inverted: "0 \<le> stop \<Longrightarrow> stop < start \<Longrightarrow> slice s start stop = []"
  by (simp add: slice_def Let_def min_def)

lemma indexOf_absent: "c \<notin> set s \<Longrightarrow> indexOf s c = - 1"
  by (simp add: indexOf_def)

lemma lastIndexOf_absent: "c \<notin> set s \<Longrightarrow> lastIndexOf s c = - 1"
  by (simp add: lastIndexOf_def)

section \<open>Section extraction on the scenario of the specification\<close>

text \<open>
  Claim C6. On the source
  \<open><template>\n  <div>Hi</div>\n</template><script>\n  {data(){return {}}}\n</script>\<close>
  (with newlines) the method \<open>template\<close> stores exactly \<open><div>Hi</div>\<close> and the method
  \<open>script\<close> stores exactly \<open>data(){return{}}\<close>, whatever the component they work on.
\<close>

theorem scenario_extraction:
  "vno_template
     ''<template>\<newline>  <div>Hi</div>\<newline></template><script>\<newline>  {data(){return {}}}\<newline></script>''
     current
   = Inr (current\<lparr>template := Some ''<div>Hi</div>''\<rparr>) \<and>
   vno_script
     ''<template>\<newline>  <div>Hi</div>\<newline></template><script>\<newline>  {data(){return {}}}\<newline></script>''
     current
   = Inr (current\<lparr>script := Some ''data(){return{}}''\<rparr>)"
  by (simp add: vno_template_def vno_script_def re_defs)

section \<open>Instance fragments\<close>

text \<open>
  Claim C9. The method \<open>instance\<close> branches on the one label \<open>App\<close>: a component with
  that label gets the root form, which binds its template and its script directly in
  \<open>new Vue({template: T, S})\<close>; a component with any other label gets the registration
  form \<open>Vue.component(label, ...)\<close>, with the label as key and as binding name. Nothing
  else of the component changes.
\<close>

theorem instance_root_special_case:
  "vno_instance current =
     current\<lparr>instance_frag := Some
       ((if label current = ''App'' then root_form else registration_form)
          (label current) (interpolate (template current)) (interpolate (script current)))\<rparr>"
  by (simp add: vno_instance_def root_form_def registration_form_def)

theorem instance_root_special_case_witness:
  "instance_frag (vno_instance (app_component\<lparr>template := Some ''T'', script := Some ''S''\<rparr>))
     = Some (''\<newline>const App = new Vue({template: '' @ [CHR 0x60] @ ''T'' @ [CHR 0x60] @ '',S})'') \<and>
   instance_frag (vno_instance (child_component\<lparr>template := Some ''T'', script := Some ''S''\<rparr>))
     = Some (''\<newline>const Child = Vue.component('' @ [CHR 0x22] @ ''Child'' @ [CHR 0x22] @
             '', {template: '' @ [CHR 0x60] @ ''T'' @ [CHR 0x60] @ '',S})'')"
  unfolding instance_root_special_case
  by (simp add: app_component_def child_component_def root_form_def registration_form_def
      interpolate_def)

section \<open>The emitter\<close>

lemma build_issues_reverse:
  "written (vno_build st) = written st @ rev (map instance_frag (cache st))"
  by (simp add: vno_build_def Let_def rev_map)

text \<open>
  Claim C3 does not hold of the code. \<open>build\<close> reverses the cache and issues one
  append for each component, last finalized first, but it awaits none of them: for a
  cache \<open>[A, B, C]\<close> the appends of the fragments of \<open>C\<close>, \<open>B\<close>, \<open>A\<close> are pending
  together, and the order of the fragments in the output file is the order in which the
  appends complete. When that of \<open>B\<close> completes first, then that of \<open>C\<close>, then that
  of \<open>A\<close>, the file holds \<open>B\<close>, \<open>C\<close>, \<open>A\<close> and not \<open>C\<close>, \<open>B\<close>, \<open>A\<close>.
\<close>

theorem build_output_order_race:
  "written (vno_build \<lparr>queue = [], cache = [a, b, c], written = []\<rparr>) =
     [instance_frag c, instance_frag b, instance_frag a] \<and>
   append_completes\<^sup>*\<^sup>*
     ([instance_frag c, instance_frag b, instance_frag a], [])
     ([], [instance_frag b, instance_frag c, instance_frag a])"
proof -
  let ?a = "instance_frag a" and ?b = "instance_frag b" and ?c = "instance_frag c"
  have 1: "append_completes ([?c, ?b, ?a], []) ([?c, ?a], [?b])"
    using complete [of "[?c]" ?b "[?a]" "[]"] by simp
  have 2: "append_completes ([?c, ?a], [?b]) ([?a], [?b, ?c])"
    using complete [of "[]" ?c "[?a]" "[?b]"] by simp
  have 3: "append_completes ([?a], [?b, ?c]) ([], [?b, ?c, ?a])"
    using complete [of "[]" ?a "[]" "[?b, ?c]"] by simp
  have "append_completes\<^sup>*\<^sup>* ([?c, ?b, ?a], []) ([], [?b, ?c, ?a])"
    using 1 2 3 by (meson rtranclp.rtrancl_into_rtrancl rtranclp.rtrancl_refl)
  then show ?thesis by (simp add: vno_build_def)
qed

section \<open>Missing and malformed sections\<close>

lemma vno_template_error: "vno_template data c = Inl e \<Longrightarrow> e = TypeError"
  by (auto simp: vno_template_def split: option.splits)

lemma vno_script_error: "vno_script data c = Inl e \<Longrightarrow> e = TypeError"
  by (auto simp: vno_script_def Let_def split: option.splits)

lemma vno_style_error: "vno_style data c = Inl e \<Longrightarrow> e = TypeError"
  by (auto simp: vno_style_def split: option.splits)

lemma parse_body_section_error:
  assumes "files (path current) = Some data"
    and "vno_template data current = Inl TypeError \<or> (\<forall>c. vno_script data c = Inl TypeError)
         \<or> (\<forall>c. vno_style data c = Inl TypeError)"
  shows "parse_body files cwd current st = Inl TypeError"
  using assms
  by (auto simp: parse_body_def Let_def split: sum.splits dest: vno_template_error vno_script_error)

text \<open>
  Claim C5, as amended. The tag pattern \<open>/<\W*NAME>/\<close> matches the closing tag as well
  as the opening tag. When it matches nowhere in the source (neither tag of the section
  occurs, so that the split has no element 1), each of \<open>template\<close>, \<open>script\<close> and
  \<open>style\<close> throws: the \<open>TypeError\<close> of calling \<open>split\<close> on \<open>undefined\<close> is the
  failure that the specification names MissingSection. No content is stored on the
  record, and the body of the loop of \<open>parse\<close>, which calls the three methods
  unconditionally, fails with the same error for that component, which therefore
  never reaches the cache or the emitter.
\<close>

theorem missing_section_throws:
  "(\<not> occurs (tag_re ''template'') data \<longrightarrow> vno_template data current = Inl TypeError) \<and>
   (\<not> occurs (tag_re ''script'') data \<longrightarrow> vno_script data current = Inl TypeError) \<and>
   (\<not> occurs (tag_re ''style'') data \<longrightarrow> vno_style data current = Inl TypeError) \<and>
   (files (path current) = Some data \<and>
    (\<not> occurs (tag_re ''template'') data \<or> \<not> occurs (tag_re ''script'') data \<or>
     \<not> occurs (tag_re ''style'') data) \<longrightarrow>
    parse_body files cwd current st = Inl TypeError)"
proof -
  have t: "vno_template data c = Inl TypeError" if "\<not> occurs (tag_re ''template'') data" for c
    using that by (simp add: vno_template_def nth_opt_split_no_match)
  have s: "vno_script data c = Inl TypeError" if "\<not> occurs (tag_re ''script'') data" for c
    using that by (simp add: vno_script_def nth_opt_split_no_match)
  have y: "vno_style data c = Inl TypeError" if "\<not> occurs (tag_re ''style'') data" for c
    using that by (simp add: vno_style_def nth_opt_split_no_match)
  show ?thesis
    using t s y parse_body_section_error [of files current data cwd st] by blast
qed

theorem missing_section_throws_witness:
  "\<not> occurs (tag_re ''template'') ''export default {}'' \<and>
   \<not> occurs (tag_re ''script'') ''export default {}'' \<and>
   \<not> occurs (tag_re ''style'') ''export default {}'' \<and>
   vno_template ''export default {}'' app_component = Inl TypeError \<and>
   vno_script ''export default {}'' app_component = Inl TypeError \<and>
   vno_style ''export default {}'' app_component = Inl TypeError \<and>
   parse_body (\<lambda>p. if p = ''/project/App.vue'' then Some ''export default {}'' else None)
     ''/project'' app_component vno_init = Inl TypeError"
proof -
  have a: "\<not> occurs (tag_re ''template'') ''export default {}''"
    and b: "\<not> occurs (tag_re ''script'') ''export default {}''"
    and c: "\<not> occurs (tag_re ''style'') ''export default {}''"
    by (simp_all add: tag_re_def)
  have d: "(\<lambda>p. if p = ''/project/App.vue'' then Some ''export default {}'' else None)
             (path app_component) = Some ''export default {}''"
    by (simp add: app_component_def)
  show ?thesis
    using a b c d
      missing_section_throws [of "''export default {}''" app_component
        "\<lambda>p. if p = ''/project/App.vue'' then Some ''export default {}'' else None"
        "''/project''" vno_init]
    by blast
qed

text \<open>
  The claim as stated fails: the source \<open></template><script>export default {}</script>\<close>
  has no opening tag \<open><template>\<close>, but the pattern matches its closing tag, and
  \<open>template\<close> stores the text behind it without any failure.
\<close>

theorem missing_opening_tag_counterexample:
  "\<not> sublist ''<template>'' ''</template><script>export default {}</script>'' \<and>
   vno_template ''</template><script>export default {}</script>'' app_component =
     Inr (app_component\<lparr>template := Some ''<script>export default {}</script>''\<rparr>)"
  by (simp add: sublist_Cons_right vno_template_def re_defs)

text \<open>
  Claim C4, as amended. When the script section has no braces, or its first \<open>{\<close> comes
  after its last \<open>}\<close>, script extraction does not fail: it stores the slice. Without
  any brace \<open>indexOf + 1\<close> is \<open>0\<close> and \<open>lastIndexOf\<close> is \<open>-1\<close>, and the slice is the
  text, white space removed, without its last character; with the first \<open>{\<close> behind
  the last \<open>}\<close> the range is inverted and the slice is the empty string.
\<close>

theorem script_without_braces_is_sliced:
  assumes "nth_opt (split_re (tag_re ''script'') data) 1 = Some part"
  shows "(CHR ''{'' \<notin> set part \<and> CHR ''}'' \<notin> set part \<longrightarrow>
            vno_script data current =
              Inr (current\<lparr>script := Some (butlast (filter (\<lambda>c. \<not> is_space c) part))\<rparr>)) \<and>
         (filter (\<lambda>c. \<not> is_space c) part = a @ b \<and>
          CHR ''}'' \<in> set a \<and> CHR ''{'' \<notin> set a \<and> CHR ''{'' \<in> set b \<and> CHR ''}'' \<notin> set b \<longrightarrow>
            vno_script data current = Inr (current\<lparr>script := Some []\<rparr>))"
proof (intro conjI impI)
  let ?body = "filter (\<lambda>c. \<not> is_space c) part"
  assume "CHR ''{'' \<notin> set part \<and> CHR ''}'' \<notin> set part"
  then have "indexOf ?body CHR ''{'' = - 1" "lastIndexOf ?body CHR ''}'' = - 1"
    by (simp_all add: indexOf_absent lastIndexOf_absent)
  then show "vno_script data current = Inr (current\<lparr>script := Some (butlast ?body)\<rparr>)"
    using assms by (simp add: vno_script_def concat_split_space slice_butlast)
next
  let ?body = "filter (\<lambda>c. \<not> is_space c) part"
  assume h: "?body = a @ b \<and> CHR ''}'' \<in> set a \<and> CHR ''{'' \<notin> set a \<and>
             CHR ''{'' \<in> set b \<and> CHR ''}'' \<notin> set b"
  then have "int (length a) \<le> indexOf (a @ b) CHR ''{''"
    and "0 \<le> lastIndexOf (a @ b) CHR ''}'' \<and> lastIndexOf (a @ b) CHR ''}'' < int (length a)"
    by (simp_all add: indexOf_append_ge lastIndexOf_append_less)
  then have "slice (a @ b) (indexOf (a @ b) CHR ''{'' + 1) (lastIndexOf (a @ b) CHR ''}'') = []"
    by (intro slice_inverted) linarith+
  then show "vno_script data current = Inr (current\<lparr>script := Some []\<rparr>)"
    using assms h by (simp add: vno_script_def concat_split_space)
qed

theorem script_without_braces_is_sliced_witness:
  "nth_opt (split_re (tag_re ''script'') ''<script>a b c</script>'') 1 = Some ''a b c'' \<and>
   vno_script ''<script>a b c</script>'' app_component = Inr (app_component\<lparr>script := Some ''ab''\<rparr>) \<and>
   nth_opt (split_re (tag_re ''script'') ''<script>x} {y</script>'') 1 = Some ''x} {y'' \<and>
   vno_script ''<script>x} {y</script>'' app_component = Inr (app_component\<lparr>script := Some []\<rparr>)"
proof -
  have 1: "nth_opt (split_re (tag_re ''script'') ''<script>a b c</script>'') 1 = Some ''a b c''"
    by (simp add: re_defs)
  have 2: "nth_opt (split_re (tag_re ''script'') ''<script>x} {y</script>'') 1 = Some ''x} {y''"
    by (simp add: re_defs)
  have 3: "filter (\<lambda>c. \<not> is_space c) ''x} {y'' = ''x}'' @ ''{y''"
    by (simp add: is_space_def)
  have 4: "butlast (filter (\<lambda>c. \<not> is_space c) ''a b c'') = ''ab''"
    by (simp add: is_space_def)
  show ?thesis
    using 1 2 4
      script_without_braces_is_sliced [OF 1, where current = app_component and a = "[]" and b = "[]"]
      script_without_braces_is_sliced [OF 2, where current = app_component and a = "''x}''" and b = "''{y''"] 3
    by simp
qed

text \<open>
  The claim as stated fails: the source \<open><script>abc</script>\<close> has no brace in its
  script section, and extraction returns the record with the script \<open>ab\<close>.
\<close>

theorem script_without_braces_counterexample:
  "vno_script ''<script>abc</script>'' app_component = Inr (app_component\<lparr>script := Some ''ab''\<rparr>)"
  by (simp add: vno_script_def re_defs)

section \<open>The extracted span\<close>

text \<open>
  Claim C7, as amended. The tag pattern \<open>/<\W*NAME>/\<close> matches the closing tag as
  well as the opening tag, and the method takes element 1 of the split, the text
  between the first two matches. For a source with an opening tag, a body, the
  closing tag and trailing content, where the pattern matches nowhere before the
  closing tag except at the opening tag, the extracted span is the body: extraction
  stops at the closing tag, and the trailing content \<open>post\<close> is not part of the span.
\<close>

theorem extraction_stops_at_closing_tag:
  assumes "no_match_within (tag_re name) pre (''<'' @ name @ ''>'' @ body @ ''</'' @ name @ ''>'' @ post)"
    and "no_match_within (tag_re name) body (''</'' @ name @ ''>'' @ post)"
  shows "(name = ''template'' \<longrightarrow>
            vno_template (pre @ ''<template>'' @ body @ ''</template>'' @ post) current =
              Inr (current\<lparr>template := Some (concat (split_re nl_or_spaces_re body))\<rparr>)) \<and>
         (name = ''script'' \<longrightarrow>
            vno_script (pre @ ''<script>'' @ body @ ''</script>'' @ post) current =
              Inr (current\<lparr>script := Some
                (let s = filter (\<lambda>c. \<not> is_space c) body
                 in slice s (indexOf s CHR ''{'' + 1) (lastIndexOf s CHR ''}''))\<rparr>)) \<and>
         (name = ''style'' \<longrightarrow>
            vno_style (pre @ ''<style>'' @ body @ ''</style>'' @ post) current =
              Inr (current\<lparr>style := Some (filter (\<lambda>c. \<not> is_space c) body)\<rparr>))"
proof -
  have w: "is_word CHR ''t''" "is_word CHR ''s''" by (simp_all add: is_word_def)
  have sp: "split_re (tag_re name) (pre @ ''<'' @ name @ ''>'' @ body @ ''</'' @ name @ ''>'' @ post)
            = pre # body # split_from (tag_re name) [] post"
    if "name \<noteq> []" "is_word (hd name)"
    using that assms by (rule split_open_close)
  show ?thesis
  proof (intro conjI impI)
    assume n: "name = ''template''"
    with sp w show "vno_template (pre @ ''<template>'' @ body @ ''</template>'' @ post) current =
        Inr (current\<lparr>template := Some (concat (split_re nl_or_spaces_re body))\<rparr>)"
      by (simp add: vno_template_def)
  next
    assume n: "name = ''script''"
    with sp w show "vno_script (pre @ ''<script>'' @ body @ ''</script>'' @ post) current =
        Inr (current\<lparr>script := Some
                (let s = filter (\<lambda>c. \<not> is_space c) body
                 in slice s (indexOf s CHR ''{'' + 1) (lastIndexOf s CHR ''}''))\<rparr>)"
      by (simp add: vno_script_def concat_split_space Let_def)
  next
    assume n: "name = ''style''"
    with sp w show "vno_style (pre @ ''<style>'' @ body @ ''</style>'' @ post) current =
        Inr (current\<lparr>style := Some (filter (\<lambda>c. \<not> is_space c) body)\<rparr>)"
      by (simp add: vno_style_def concat_split_space)
  qed
qed

theorem extraction_stops_at_closing_tag_witness:
  "no_match_within (tag_re ''template'') [] (''<template>'' @ ''a'' @ ''</template>'' @ ''b'') \<and>
   no_match_within (tag_re ''template'') ''a'' (''</template>'' @ ''b'') \<and>
   vno_template (''<template>a</template>b'') app_component =
     Inr (app_component\<lparr>template := Some ''a''\<rparr>)"
proof -
  have 1: "no_match_within (tag_re ''template'') []
             (''<'' @ ''template'' @ ''>'' @ ''a'' @ ''</'' @ ''template'' @ ''>'' @ ''b'')"
    by simp
  have 2: "no_match_within (tag_re ''template'') ''a'' (''</'' @ ''template'' @ ''>'' @ ''b'')"
    by (simp add: tag_re_def)
  have 3: "concat (split_re nl_or_spaces_re ''a'') = ''a''"
    by (simp add: re_defs)
  show ?thesis
    using extraction_stops_at_closing_tag [OF 1 2, where current = app_component] 2 3 by simp
qed

text \<open>
  The claim as stated fails: on \<open><template>a</template>b\<close> the template is \<open>a\<close>, not
  the remainder \<open>a</template>b\<close> of the file; on \<open><script>{a}</script>}\<close> the script
  is \<open>a\<close>, while the slice of the remainder \<open>{a}</script>}\<close> would be \<open>a}</script>\<close>.
\<close>

theorem extraction_remainder_counterexample:
  "vno_template ''<template>a</template>b'' app_component =
     Inr (app_component\<lparr>template := Some ''a''\<rparr>) \<and>
   vno_template ''<template>a</template>b'' app_component \<noteq>
     Inr (app_component\<lparr>template := Some ''a</template>b''\<rparr>) \<and>
   vno_script ''<script>{a}</script>}'' app_component =
     Inr (app_component\<lparr>script := Some ''a''\<rparr>) \<and>
   vno_script ''<script>{a}</script>}'' app_component \<noteq>
     Inr (app_component\<lparr>script := Some ''a}</script>''\<rparr>)"
  by (simp add: vno_template_def vno_script_def re_defs app_component_def)

section \<open>Import lines\<close>




section \<open>What \<open>imports\<close> pushes\<close>

lemma known_push: "known (st\<lparr>queue := queue st @ [d]\<rparr>) = insert (label d) (known st)"
  by (auto simp: known_def)

lemma imports_forEach_Cons:
  "imports_forEach cwd (item # items) st =
     (case item_component cwd item of
        None \<Rightarrow> Inl TypeError
      | Some d \<Rightarrow>
          imports_forEach cwd items
            (if label d \<in> known st then st else st\<lparr>queue := queue st @ [d]\<rparr>))"
  by (auto simp: item_component_def known_def list_ex_iff Let_def split: list.splits)

lemma imports_forEach_eq:
  "imports_forEach cwd items st =
     (if \<forall>item\<in>set items. item_component cwd item \<noteq> None
      then Inr (st\<lparr>queue := queue st @ first_new (known st) (map (\<lambda>item. the (item_component cwd item)) items)\<rparr>)
      else Inl TypeError)"
proof (induction items arbitrary: st)
  case Nil
  show ?case by simp
next
  case (Cons item items)
  show ?case
  proof (cases "item_component cwd item")
    case None
    then show ?thesis by (simp only: imports_forEach_Cons) auto
  next
    case (Some d)
    then show ?thesis
      by (simp only: imports_forEach_Cons Cons.IH) (auto simp: known_push)
  qed
qed

lemma first_new_filter:
  "first_new (K \<union> K') ds = filter (\<lambda>d. label d \<notin> K) (first_new K' ds)"
proof (induction ds arbitrary: K')
  case Nil
  show ?case by simp
next
  case (Cons d ds)
  have a: "first_new (K \<union> insert (label d) K') ds =
           filter (\<lambda>d. label d \<notin> K) (first_new (insert (label d) K') ds)"
    by (rule Cons.IH)
  have b: "first_new (K \<union> K') ds = filter (\<lambda>d. label d \<notin> K) (first_new K' ds)"
    by (rule Cons.IH)
  consider "label d \<in> K'" | "label d \<notin> K'" "label d \<in> K" | "label d \<notin> K'" "label d \<notin> K"
    by blast
  then show ?case
  proof cases
    case 1
    then show ?thesis by (simp add: b)
  next
    case 2
    then have "K \<union> insert (label d) K' = K \<union> K'" by blast
    with a 2 show ?thesis by simp
  next
    case 3
    with a show ?thesis by simp
  qed
qed



lemma first_new_subset: "set (first_new K ds) \<subseteq> set ds"
  by (induction ds arbitrary: K) auto

lemma first_new_complete: "label ` set ds \<subseteq> K \<union> label ` set (first_new K ds)"
proof (induction ds arbitrary: K)
  case Nil
  show ?case by simp
next
  case (Cons d ds)
  from Cons [of K] Cons [of "insert (label d) K"] show ?case by auto
qed

lemma known_init [simp]: "known vno_init = {}"
  by (simp add: known_def vno_init_def)

lemma vno_imports_from_init:
  assumes "vno_imports cwd data vno_init = Inr s0"
  shows "vno_imports cwd data st =
           Inr (st\<lparr>queue := queue st @ filter (\<lambda>d. label d \<notin> known st) (imported cwd data)\<rparr>)"
proof -
  let ?items = "filter (\<lambda>element. prefix ''import'' element) (split_re nl_re data)"
  let ?ds = "map (\<lambda>item. the (item_component cwd item)) ?items"
  from assms have ok: "\<forall>item\<in>set ?items. item_component cwd item \<noteq> None"
    by (simp add: vno_imports_def Let_def imports_forEach_eq split: if_splits)
  with assms have "imported cwd data = first_new {} ?ds"
    by (auto simp: imported_def vno_imports_def Let_def imports_forEach_eq vno_init_def known_def)
  moreover have "first_new (known st) ?ds = filter (\<lambda>d. label d \<notin> known st) (first_new {} ?ds)"
    using first_new_filter [of "known st" "{}" ?ds] by simp
  ultimately show ?thesis
    using ok by (simp add: vno_imports_def Let_def imports_forEach_eq)
qed





lemma vno_instance_label [simp]: "label (vno_instance c) = label c"
  by (simp add: vno_instance_def)




lemma vno_instance_path [simp]: "path (vno_instance c) = path c"
  by (simp add: vno_instance_def)


section \<open>The loop of \<open>parse\<close>\<close>







text \<open>The loop changes the cache only by pushing at its end.\<close>

lemma vno_imports_cache: "vno_imports cwd data st = Inr st' \<Longrightarrow> cache st' = cache st"
  by (auto simp: vno_imports_def Let_def imports_forEach_eq split: if_splits)

lemma parse_body_cache:
  "parse_body files cwd current st = Inr st' \<Longrightarrow> \<exists>c. cache st' = cache st @ [c]"
  by (auto simp: parse_body_def Let_def split: option.splits sum.splits dest: vno_imports_cache)

lemma parse_loop_appends:
  assumes "parse_loop files cwd st = Some r"
  shows "\<forall>st1. r = Inr st1 \<longrightarrow> prefix (cache st) (cache st1)"
proof (rule parse_loop.raw_induct
    [where P = "\<lambda>files cwd st r. \<forall>st1. r = Inr st1 \<longrightarrow> prefix (cache st) (cache st1)",
      OF _ assms], goal_cases)
  case (1 f files cwd st r)
  show ?case
  proof (cases "queue st")
    case Nil
    with 1(2) show ?thesis by auto
  next
    case (Cons current rest)
    show ?thesis
    proof (cases "parse_body files cwd current (st\<lparr>queue := rest\<rparr>)")
      case (Inl e)
      with 1(2) Cons show ?thesis by auto
    next
      case (Inr st')
      with 1(2) Cons have "f files cwd st' = Some r" by simp
      with 1(1) have "\<forall>st1. r = Inr st1 \<longrightarrow> prefix (cache st') (cache st1)" by blast
      moreover from parse_body_cache [OF Inr] obtain c where "cache st' = cache st @ [c]"
        by auto
      ultimately show ?thesis by (auto dest: append_prefixD)
    qed
  qed
qed

section \<open>The example file sets\<close>

lemma app_sections:
  "vno_template app_source c = Inr (c\<lparr>template := Some ''<div><Child/></div>''\<rparr>)"
  "vno_script app_source c = Inr (c\<lparr>script := Some ''name:1''\<rparr>)"
  "vno_style app_source c = Inr (c\<lparr>style := Some []\<rparr>)"
  by (simp_all add: app_source_def import_child_line_def vno_template_def vno_script_def
      vno_style_def re_defs)

lemma child_sections:
  "vno_template child_source c = Inr (c\<lparr>template := Some ''<p>Hi</p>''\<rparr>)"
  "vno_script child_source c = Inr (c\<lparr>script := Some []\<rparr>)"
  "vno_style child_source c = Inr (c\<lparr>style := Some []\<rparr>)"
  by (simp_all add: child_source_def vno_template_def vno_script_def vno_style_def re_defs)

lemma self_sections:
  "vno_template self_source c = Inr (c\<lparr>template := Some ''<div/>''\<rparr>)"
  "vno_script self_source c = Inr (c\<lparr>script := Some []\<rparr>)"
  "vno_style self_source c = Inr (c\<lparr>style := Some []\<rparr>)"
  by (simp_all add: self_source_def vno_template_def vno_script_def vno_style_def re_defs)

lemma app_imports:
  "vno_imports ''/project'' app_source vno_init = Inr (vno_init\<lparr>queue := [child_component]\<rparr>)"
  by (simp add: app_source_def import_child_line_def vno_imports_def re_defs path_defs
      vno_locate_def interpolate_def vno_init_def child_component_def)

lemma child_imports:
  "vno_imports ''/project'' child_source st = Inr st"
  by (simp add: child_source_def vno_imports_def re_defs)

lemma self_imports:
  "vno_imports ''/project'' self_source vno_init = Inr (vno_init\<lparr>queue := [app_component]\<rparr>)"
  by (simp add: self_source_def vno_imports_def re_defs path_defs
      vno_locate_def interpolate_def vno_init_def app_component_def)

lemma example_paths [simp]:
  "path app_component = ''/project/App.vue''" "path child_component = ''/project/Child.vue''"
  "label app_component = ''App''" "label child_component = ''Child''"
  by (simp_all add: app_component_def child_component_def)

lemma example_imported:
  "imported ''/project'' app_source = [child_component]"
  "imported ''/project'' child_source = []"
  "imported ''/project'' self_source = [app_component]"
  by (simp_all add: imported_def app_imports child_imports self_imports) (simp_all add: vno_init_def)

lemma app_body:
  "parse_body example_files ''/project'' app_component st =
     Inr (st\<lparr>queue := queue st @ filter (\<lambda>d. label d \<notin> known st) [child_component],
             cache := cache st @ [app_parsed]\<rparr>)"
  by (simp add: parse_body_def Let_def example_files_def app_sections app_parsed_def
      vno_imports_from_init [OF app_imports] example_imported)

lemma child_body:
  "parse_body example_files ''/project'' child_component st =
     Inr (st\<lparr>cache := cache st @ [child_parsed]\<rparr>)"
  by (simp add: parse_body_def Let_def example_files_def child_sections child_imports child_parsed_def)

lemma self_body:
  "parse_body self_files ''/project'' app_component st =
     Inr (st\<lparr>queue := queue st @ filter (\<lambda>d. label d \<notin> known st) [app_component],
             cache := cache st @ [self_parsed]\<rparr>)"
  by (simp add: parse_body_def Let_def self_files_def self_sections self_parsed_def
      vno_imports_from_init [OF self_imports] example_imported)

lemma example_labels [simp]:
  "label app_parsed = ''App''" "label child_parsed = ''Child''" "label self_parsed = ''App''"
  by (simp_all add: app_parsed_def child_parsed_def self_parsed_def)

lemma example_loop:
  "parse_loop example_files ''/project'' (vno_init\<lparr>queue := queue vno_init @ [app_component]\<rparr>) =
     Some (Inr (vno_init\<lparr>cache := [app_parsed, child_parsed]\<rparr>))"
proof -
  have 1: "parse_loop example_files ''/project'' \<lparr>queue = [app_component], cache = [], written = []\<rparr>
         = parse_loop example_files ''/project''
             \<lparr>queue = [child_component], cache = [app_parsed], written = []\<rparr>"
    by (subst parse_loop.simps) (simp add: app_body known_def)
  have 2: "parse_loop example_files ''/project''
             \<lparr>queue = [child_component], cache = [app_parsed], written = []\<rparr>
         = parse_loop example_files ''/project''
             \<lparr>queue = [], cache = [app_parsed, child_parsed], written = []\<rparr>"
    by (subst parse_loop.simps) (simp add: child_body)
  have 3: "parse_loop example_files ''/project''
             \<lparr>queue = [], cache = [app_parsed, child_parsed], written = []\<rparr>
         = Some (Inr \<lparr>queue = [], cache = [app_parsed, child_parsed], written = []\<rparr>)"
    by (subst parse_loop.simps) simp
  from 1 2 3 show ?thesis by (simp add: vno_init_def)
qed








section \<open>Termination and single insertion\<close>



section \<open>The cache after the build\<close>

text \<open>
  Claim C10. \<open>build\<close> is not read-only on the store: it reverses the cache in place.
  The loop of \<open>parse\<close> pushes each parsed component at the end of the cache, so the
  cache that the loop leaves extends the one it started with and lists the components
  in the order of their discovery; the cache that \<open>parse\<close> returns after the build,
  and that the compiler keeps, is the reverse of it.
\<close>

theorem parse_returns_reversed_cache:
  assumes "parse_loop files cwd (st\<lparr>queue := queue st @ [root]\<rparr>) = Some (Inr st1)"
  shows "vno_parse files cwd root st = Some (Inr (rev (cache st1), vno_build st1)) \<and>
         cache (vno_build st1) = rev (cache st1) \<and>
         prefix (cache st) (cache st1)"
  using assms parse_loop_appends [OF assms]
  by (simp add: vno_parse_def vno_build_def Let_def)

theorem parse_returns_reversed_cache_witness:
  "parse_loop example_files ''/project'' (vno_init\<lparr>queue := queue vno_init @ [app_component]\<rparr>) =
     Some (Inr (vno_init\<lparr>cache := [app_parsed, child_parsed]\<rparr>)) \<and>
   vno_parse example_files ''/project'' app_component vno_init =
     Some (Inr ([child_parsed, app_parsed],
       vno_init\<lparr>cache := [child_parsed, app_parsed],
                 written := [instance_frag child_parsed, instance_frag app_parsed]\<rparr>))"
proof -
  have "vno_build (vno_init\<lparr>cache := [app_parsed, child_parsed]\<rparr>) =
          vno_init\<lparr>cache := [child_parsed, app_parsed],
                    written := [instance_frag child_parsed, instance_frag app_parsed]\<rparr>"
    by (simp add: vno_build_def vno_init_def)
  with parse_returns_reversed_cache [OF example_loop] example_loop show ?thesis
    by simp
qed

section \<open>A component that imports itself\<close>

text \<open>
  Claim C2 does not hold of the code. While a component is parsed it is neither in
  the queue nor in the cache, so the test of \<open>imports\<close> lets an import of its own
  label through. For the file \<open>App.vue\<close> that imports \<open>App\<close>, the first run of the loop
  body leaves the label \<open>App\<close> both in the queue and in the cache, the component enters
  the queue a second time, and the loop ends with two components of that label in
  the cache.
\<close>

theorem self_import_parsed_twice:
  "parse_body self_files ''/project'' app_component vno_init =
     Inr (vno_init\<lparr>queue := [app_component], cache := [self_parsed]\<rparr>) \<and>
   label self_parsed = label app_component \<and>
   parse_loop self_files ''/project'' (vno_init\<lparr>queue := queue vno_init @ [app_component]\<rparr>) =
     Some (Inr (vno_init\<lparr>cache := [self_parsed, self_parsed]\<rparr>))"
proof -
  have 0: "parse_body self_files ''/project'' app_component vno_init =
     Inr (vno_init\<lparr>queue := [app_component], cache := [self_parsed]\<rparr>)"
    by (simp add: self_body) (simp add: vno_init_def)
  have 1: "parse_loop self_files ''/project'' \<lparr>queue = [app_component], cache = [], written = []\<rparr>
         = parse_loop self_files ''/project''
             \<lparr>queue = [app_component], cache = [self_parsed], written = []\<rparr>"
    by (subst parse_loop.simps) (simp add: self_body known_def)
  have 2: "parse_loop self_files ''/project''
             \<lparr>queue = [app_component], cache = [self_parsed], written = []\<rparr>
         = parse_loop self_files ''/project''
             \<lparr>queue = [], cache = [self_parsed, self_parsed], written = []\<rparr>"
    by (subst parse_loop.simps) (simp add: self_body known_def)
  have 3: "parse_loop self_files ''/project''
             \<lparr>queue = [], cache = [self_parsed, self_parsed], written = []\<rparr>
         = Some (Inr \<lparr>queue = [], cache = [self_parsed, self_parsed], written = []\<rparr>)"
    by (subst parse_loop.simps) simp
  from 0 1 2 3 show ?thesis by (simp add: vno_init_def)
qed

end
